theory Spec2Isabelle
  imports Main "HOL-Library.Word"
begin

unbundle bit_operations_syntax

section \<open>CRC-16/MODBUS reference model\<close>

text \<open>
  The harness carries three textually separate copies of \<open>crc16_modbus\<close>
  (\<open>test/test_peripherals.py\<close>, \<open>test/test_peripheral_e2e.py\<close>,
  \<open>verify/gen_seal_golden.py\<close>).  Python integers are unbounded, so the
  accumulator is an \<open>int\<close>; the argument has type \<open>bytes\<close>, whose elements
  are 0..255, so a byte is an \<open>8 word\<close> read with \<open>uint\<close>.

  The inner \<open>for _ in range(8)\<close> is a recursion on the number of remaining
  iterations, the outer \<open>for byte in data\<close> a recursion on the list.
\<close>

type_synonym byte = "8 word"

subsection \<open>Copy in test\_peripherals.py\<close>

primrec crc16_modbus_bits :: "nat \<Rightarrow> int \<Rightarrow> int" where
  "crc16_modbus_bits 0 crc = crc"
| "crc16_modbus_bits (Suc n) crc =
     crc16_modbus_bits n
       (if crc AND 1 \<noteq> 0 then drop_bit 1 crc XOR 0xA001 else drop_bit 1 crc)"

primrec crc16_modbus_bytes :: "int \<Rightarrow> byte list \<Rightarrow> int" where
  "crc16_modbus_bytes crc [] = crc"
| "crc16_modbus_bytes crc (b # bs) =
     crc16_modbus_bytes (crc16_modbus_bits 8 (crc XOR uint b)) bs"

definition crc16_modbus :: "byte list \<Rightarrow> int" where
  "crc16_modbus data = crc16_modbus_bytes 0xFFFF data"

subsection \<open>Copy in test\_peripheral\_e2e.py\<close>

primrec crc16_modbus_e2e_bits :: "nat \<Rightarrow> int \<Rightarrow> int" where
  "crc16_modbus_e2e_bits 0 crc = crc"
| "crc16_modbus_e2e_bits (Suc n) crc =
     crc16_modbus_e2e_bits n
       (if crc AND 1 \<noteq> 0 then drop_bit 1 crc XOR 0xA001 else drop_bit 1 crc)"

primrec crc16_modbus_e2e_bytes :: "int \<Rightarrow> byte list \<Rightarrow> int" where
  "crc16_modbus_e2e_bytes crc [] = crc"
| "crc16_modbus_e2e_bytes crc (b # bs) =
     crc16_modbus_e2e_bytes (crc16_modbus_e2e_bits 8 (crc XOR uint b)) bs"

definition crc16_modbus_e2e :: "byte list \<Rightarrow> int" where
  "crc16_modbus_e2e data = crc16_modbus_e2e_bytes 0xFFFF data"

subsection \<open>Copy in gen\_seal\_golden.py\<close>

primrec crc16_modbus_golden_bits :: "nat \<Rightarrow> int \<Rightarrow> int" where
  "crc16_modbus_golden_bits 0 crc = crc"
| "crc16_modbus_golden_bits (Suc n) crc =
     crc16_modbus_golden_bits n
       (if crc AND 1 \<noteq> 0 then drop_bit 1 crc XOR 0xA001 else drop_bit 1 crc)"

primrec crc16_modbus_golden_bytes :: "int \<Rightarrow> byte list \<Rightarrow> int" where
  "crc16_modbus_golden_bytes crc [] = crc"
| "crc16_modbus_golden_bytes crc (b # bs) =
     crc16_modbus_golden_bytes (crc16_modbus_golden_bits 8 (crc XOR uint b)) bs"

definition crc16_modbus_golden :: "byte list \<Rightarrow> int" where
  "crc16_modbus_golden data = crc16_modbus_golden_bytes 0xFFFF data"

subsection \<open>The stated reference definition\<close>

text \<open>
  This second definition follows the words of the specification, not the code:
  a 16-bit accumulator initialised to \<open>0xFFFF\<close>; each input byte is XORed into
  the low 8 bits; then the accumulator is shifted right 8 times, each time
  XOR-ing in \<open>0xA001\<close> exactly when the bit shifted out is 1; the final
  accumulator is the CRC.
\<close>

definition crc16_ref_shift :: "16 word \<Rightarrow> 16 word" where
  "crc16_ref_shift acc =
     (let shifted_out = bit acc 0; acc' = drop_bit 1 acc
      in if shifted_out then acc' XOR 0xA001 else acc')"

definition crc16_ref_byte :: "16 word \<Rightarrow> byte \<Rightarrow> 16 word" where
  "crc16_ref_byte acc b = (crc16_ref_shift ^^ 8) (acc XOR ucast b)"

definition crc16_ref :: "byte list \<Rightarrow> 16 word" where
  "crc16_ref bs = foldl crc16_ref_byte 0xFFFF bs"


section \<open>Seal record serialisation (gen\_seal\_golden.py)\<close>

text \<open>
  \<open>make_seal_bytes\<close> fills a 9-byte \<open>bytearray\<close>.  Each stored element is
  masked with \<open>0xFF\<close> first, so the store never raises; \<open>byte_of\<close> is that store.
\<close>

definition byte_of :: "int \<Rightarrow> byte" where
  "byte_of v = word_of_int v"

definition make_seal_bytes :: "int \<Rightarrow> int \<Rightarrow> int \<Rightarrow> byte list" where
  "make_seal_bytes sensor_id val mono_count =
     [ byte_of (sensor_id AND 0xFF),
       byte_of (drop_bit 0 val AND 0xFF),
       byte_of (drop_bit 8 val AND 0xFF),
       byte_of (drop_bit 16 val AND 0xFF),
       byte_of (drop_bit 24 val AND 0xFF),
       byte_of (drop_bit 0 mono_count AND 0xFF),
       byte_of (drop_bit 8 mono_count AND 0xFF),
       byte_of (drop_bit 16 mono_count AND 0xFF),
       byte_of (drop_bit 24 mono_count AND 0xFF) ]"

section \<open>Properties of the CRC model\<close>

lemma int_and_1_iff: "((x::int) AND 1 \<noteq> 0) = bit x 0"
  by (simp add: and_one_eq bit_0 mod_2_eq_odd)

lemma uint_and_1_iff: "(uint (w :: 16 word) AND 1 \<noteq> 0) = bit w 0"
  by (simp add: int_and_1_iff bit_uint_iff)

lemma uint_drop_bit1: "uint (drop_bit 1 (w :: 16 word)) = drop_bit 1 (uint w)"
proof -
  have "take_bit 16 (uint w) = uint w"
    by (rule take_bit_int_eq_self) (use uint_lt2p [of w] in simp_all)
  then show ?thesis by (simp add: unsigned_drop_bit_eq)
qed

lemma crc16_step_uint:
  "(if uint w AND 1 \<noteq> 0 then drop_bit 1 (uint w) XOR 0xA001 else drop_bit 1 (uint w))
     = uint (crc16_ref_shift (w :: 16 word))"
  by (simp only: uint_and_1_iff)
     (simp add: crc16_ref_shift_def Let_def uint_xor uint_drop_bit1 [simplified])

lemma crc16_modbus_bits_uint:
  "crc16_modbus_bits n (uint w) = uint ((crc16_ref_shift ^^ n) w)"
proof (induction n arbitrary: w)
  case 0
  show ?case by simp
next
  case (Suc n)
  have "crc16_modbus_bits (Suc n) (uint w) = crc16_modbus_bits n (uint (crc16_ref_shift w))"
    by (simp only: crc16_modbus_bits.simps crc16_step_uint)
  also have "\<dots> = uint ((crc16_ref_shift ^^ n) (crc16_ref_shift w))"
    by (rule Suc.IH)
  finally show ?case by (simp add: funpow_swap1)
qed

lemma uint_xor_byte: "uint (w :: 16 word) XOR uint (b :: byte) = uint (w XOR ucast b)"
  by (simp add: uint_xor uint_up_ucast is_up)

lemma crc16_modbus_bytes_uint:
  "crc16_modbus_bytes (uint w) bs = uint (foldl crc16_ref_byte w bs)"
proof (induction bs arbitrary: w)
  case Nil
  show ?case by simp
next
  case (Cons b bs)
  show ?case
    by (simp only: crc16_modbus_bytes.simps uint_xor_byte crc16_modbus_bits_uint
          Cons.IH foldl.simps crc16_ref_byte_def)
qed

lemma crc16_modbus_ref: "crc16_modbus bs = uint (crc16_ref bs)"
proof -
  have "crc16_modbus_bytes (uint (0xFFFF :: 16 word)) bs
          = uint (foldl crc16_ref_byte 0xFFFF bs)"
    by (rule crc16_modbus_bytes_uint)
  then show ?thesis
    by (simp add: crc16_modbus_def crc16_ref_def)
qed

lemma crc16_modbus_e2e_bits_eq: "crc16_modbus_e2e_bits n c = crc16_modbus_bits n c"
  by (induction n arbitrary: c) simp_all

lemma crc16_modbus_e2e_bytes_eq: "crc16_modbus_e2e_bytes c bs = crc16_modbus_bytes c bs"
  by (induction bs arbitrary: c) (simp_all add: crc16_modbus_e2e_bits_eq)

lemma crc16_modbus_golden_bits_eq: "crc16_modbus_golden_bits n c = crc16_modbus_bits n c"
  by (induction n arbitrary: c) simp_all

lemma crc16_modbus_golden_bytes_eq:
  "crc16_modbus_golden_bytes c bs = crc16_modbus_bytes c bs"
  by (induction bs arbitrary: c) (simp_all add: crc16_modbus_golden_bits_eq)

text \<open>
  Claim C3.  For every byte sequence, \<open>crc16_modbus\<close> computes the stated
  CRC16-MODBUS reference (16-bit accumulator from \<open>0xFFFF\<close>, byte XORed into the
  low 8 bits, eight right shifts each XOR-ing \<open>0xA001\<close> exactly when the
  shifted-out bit is 1), and the copies in \<open>test_peripheral_e2e.py\<close> and
  \<open>gen_seal_golden.py\<close> agree with the one in \<open>test_peripherals.py\<close> on every
  input.
\<close>

theorem crc16_modbus_matches_reference:
  "crc16_modbus b = uint (crc16_ref b)
   \<and> crc16_modbus_e2e b = crc16_modbus b
   \<and> crc16_modbus_golden b = crc16_modbus b"
proof -
  have "crc16_modbus_e2e b = crc16_modbus b"
    by (simp add: crc16_modbus_e2e_def crc16_modbus_def crc16_modbus_e2e_bytes_eq)
  moreover have "crc16_modbus_golden b = crc16_modbus b"
    by (simp add: crc16_modbus_golden_def crc16_modbus_def crc16_modbus_golden_bytes_eq)
  ultimately show ?thesis
    using crc16_modbus_ref [of b] by blast
qed

text \<open>
  Claim C4.  The CRC of the 9-byte seal serialisation (one sensor-id byte, the
  value as 4 little-endian bytes, the monotonic count as 4 little-endian bytes)
  is \<open>0x578C\<close> for \<open>(0xAA, 0x00000000, 0)\<close> and \<open>0xE80E\<close> for
  \<open>(0xFF, 0xFFFFFFFF, 1)\<close>; the serialisations are the listed byte strings.
\<close>

theorem seal_golden_cross_check:
  "make_seal_bytes 0xAA 0x00000000 0 = [0xAA, 0, 0, 0, 0, 0, 0, 0, 0]
   \<and> make_seal_bytes 0xFF 0xFFFFFFFF 1 = [0xFF, 0xFF, 0xFF, 0xFF, 0xFF, 1, 0, 0, 0]
   \<and> crc16_modbus_golden (make_seal_bytes 0xAA 0x00000000 0) = 0x578C
   \<and> crc16_modbus_golden (make_seal_bytes 0xFF 0xFFFFFFFF 1) = 0xE80E"
proof -
  have v1: "make_seal_bytes 0xAA 0x00000000 0 = [0xAA, 0, 0, 0, 0, 0, 0, 0, 0]"
    by code_simp
  have v2: "make_seal_bytes 0xFF 0xFFFFFFFF 1 = [0xFF, 0xFF, 0xFF, 0xFF, 0xFF, 1, 0, 0, 0]"
    by code_simp
  have c1: "crc16_modbus_golden [0xAA, 0, 0, 0, 0, 0, 0, 0, 0] = 0x578C"
    by code_simp
  have c2: "crc16_modbus_golden [0xFF, 0xFF, 0xFF, 0xFF, 0xFF, 1, 0, 0, 0] = 0xE80E"
    by code_simp
  show ?thesis
    by (simp only: v1 v2 c1 c2)
qed

end
